theory Spec2Isabelle
  imports Complex_Main "HOL-Library.Sublist"
begin

section \<open>JavaScript values, strings and objects\<close>

text \<open>
  The program is one JavaScript file, \<^verbatim>\<open>data_extraction_tool.js\<close>.  Its rows are plain
  objects whose property values are strings, numbers, booleans, \<^verbatim>\<open>null\<close> or absent
  (\<^verbatim>\<open>undefined\<close>).  A string is the list of its code units; the characters of
  \<^typ>\<open>string\<close> stand for the code units below 256.  The finite numbers covered are the
  integers up to \<open>2^53\<close> in magnitude, which a number holds exactly and the runtime prints in
  plain decimal; \<open>Num n\<close> stands for no number of the program beyond that, and fractions are
  not covered.
\<close>

datatype jsnum = NaN | PosInfinity | NegInfinity | Num int

datatype jsval = JUndefined | JNull | JBool bool | JNum jsnum | JStr string

subsection \<open>Character classes of the regular expressions\<close>

definition isDigit :: "char \<Rightarrow> bool" where
  \<comment> \<open>\<^verbatim>\<open>\d\<close>, the complement of \<^verbatim>\<open>\D\<close>\<close>
  "isDigit c \<longleftrightarrow> (48::nat) \<le> of_char c \<and> of_char c \<le> (57::nat)"

definition isAsciiLetter :: "char \<Rightarrow> bool" where
  \<comment> \<open>\<^verbatim>\<open>[a-zA-Z]\<close>\<close>
  "isAsciiLetter c \<longleftrightarrow>
     ((65::nat) \<le> of_char c \<and> of_char c \<le> (90::nat)) \<or>
     ((97::nat) \<le> of_char c \<and> of_char c \<le> (122::nat))"

definition isWhiteSpace :: "char \<Rightarrow> bool" where
  \<comment> \<open>\<^verbatim>\<open>\s\<close>, which is also what \<^verbatim>\<open>trim\<close> removes: TAB, LF, VT, FF, CR, SP, NBSP\<close>
  "isWhiteSpace c \<longleftrightarrow> of_char c \<in> {9, 10, 11, 12, 13, 32, 160 :: nat}"

subsection \<open>String methods\<close>

definition lowerChar :: "char \<Rightarrow> char" where
  "lowerChar c =
     (let n = of_char c :: nat
      in if (65 \<le> n \<and> n \<le> 90) \<or> (192 \<le> n \<and> n \<le> 222 \<and> n \<noteq> 215)
         then char_of (n + 32) else c)"

definition upperChar :: "char \<Rightarrow> char" where
  \<comment> \<open>the program upper-cases only text already reduced to ASCII letters and white space\<close>
  "upperChar c =
     (let n = of_char c :: nat
      in if (97 \<le> n \<and> n \<le> 122) \<or> (224 \<le> n \<and> n \<le> 254 \<and> n \<noteq> 247)
         then char_of (n - 32) else c)"

definition toLowerCase :: "string \<Rightarrow> string" where
  "toLowerCase s = map lowerChar s"

definition toUpperCase :: "string \<Rightarrow> string" where
  "toUpperCase s = map upperChar s"

definition trim :: "string \<Rightarrow> string" where
  "trim s = rev (dropWhile isWhiteSpace (rev (dropWhile isWhiteSpace s)))"

text \<open>
  \<^verbatim>\<open>s.split(sep)\<close> for a non-empty separator string: the pieces between the successive
  occurrences of \<open>sep\<close>, found from left to right; always at least one piece.
\<close>

fun splitFrom :: "string \<Rightarrow> string \<Rightarrow> string \<Rightarrow> string list" where
  "splitFrom sep acc [] = [rev acc]"
| "splitFrom sep acc (c # cs) =
     (if prefix sep (c # cs)
      then rev acc # splitFrom sep [] (drop (length sep - 1) cs)
      else splitFrom sep (c # acc) cs)"

definition splitOn :: "string \<Rightarrow> string \<Rightarrow> string list" where
  "splitOn sep s = splitFrom sep [] s"

fun joinWith :: "string \<Rightarrow> string list \<Rightarrow> string" where
  "joinWith sep [] = []"
| "joinWith sep [w] = w"
| "joinWith sep (w # v # ws) = w @ sep @ joinWith sep (v # ws)"

fun includesStr :: "string \<Rightarrow> string \<Rightarrow> bool" where
  \<comment> \<open>\<^verbatim>\<open>s.includes(pat)\<close>\<close>
  "includesStr [] pat = (pat = [])"
| "includesStr (c # cs) pat = (prefix pat (c # cs) \<or> includesStr cs pat)"

definition startsWith :: "string \<Rightarrow> string \<Rightarrow> bool" where
  "startsWith s pat = prefix pat s"

definition endsWith :: "string \<Rightarrow> string \<Rightarrow> bool" where
  "endsWith s pat = suffix pat s"

subsection \<open>Conversions\<close>

fun decimal :: "nat \<Rightarrow> string" where
  "decimal n =
     (if n < 10 then [char_of (48 + n)]
      else decimal (n div 10) @ [char_of (48 + n mod 10)])"

declare decimal.simps [simp del]

fun numberToString :: "jsnum \<Rightarrow> string" where
  "numberToString NaN = ''NaN''"
| "numberToString PosInfinity = ''Infinity''"
| "numberToString NegInfinity = ''-Infinity''"
| "numberToString (Num n) = (if n < 0 then ''-'' @ decimal (nat (- n)) else decimal (nat n))"

fun toString :: "jsval \<Rightarrow> string" where
  \<comment> \<open>\<^verbatim>\<open>String(v)\<close> and the conversion inside a template literal\<close>
  "toString JUndefined = ''undefined''"
| "toString JNull = ''null''"
| "toString (JBool b) = (if b then ''true'' else ''false'')"
| "toString (JNum n) = numberToString n"
| "toString (JStr s) = s"

fun truthy :: "jsval \<Rightarrow> bool" where
  \<comment> \<open>the test made by \<^verbatim>\<open>||\<close>, \<^verbatim>\<open>?:\<close> and \<^verbatim>\<open>if\<close>\<close>
  "truthy JUndefined = False"
| "truthy JNull = False"
| "truthy (JBool b) = b"
| "truthy (JNum n) = (n \<noteq> NaN \<and> n \<noteq> Num 0)"
| "truthy (JStr s) = (s \<noteq> [])"

fun toNumber :: "jsval \<Rightarrow> jsnum" where
  \<comment> \<open>for the values that are not strings\<close>
  "toNumber JUndefined = NaN"
| "toNumber JNull = Num 0"
| "toNumber (JBool b) = (if b then Num 1 else Num 0)"
| "toNumber (JNum n) = n"
| "toNumber (JStr s) = NaN"

subsection \<open>Objects and maps\<close>

text \<open>
  An object is the list of its own properties in creation order.  Assigning to a property
  that exists replaces its value in place; assigning to a new one appends it.  The
  \<^verbatim>\<open>Map\<close> of the duplicate removal behaves in the same way.  The runtime lists the keys
  that are array indices before the others; the model keeps creation order throughout, and
  no result below depends on the order in which the columns of a row are visited.
  Properties inherited from \<^verbatim>\<open>Object.prototype\<close> are not modelled.  An assignment under
  a computed key goes through \<open>setProp\<close>: the key \<^verbatim>\<open>__proto__\<close> names the prototype
  setter, which creates no property of the object itself when it is given a string or
  \<^verbatim>\<open>null\<close>.
\<close>

type_synonym obj = "(string \<times> jsval) list"

type_synonym table = "obj list"

fun assign :: "('k \<times> 'v) list \<Rightarrow> 'k \<Rightarrow> 'v \<Rightarrow> ('k \<times> 'v) list" where
  "assign [] k v = [(k, v)]"
| "assign ((k', v') # kvs) k v =
     (if k' = k then (k, v) # kvs else (k', v') # assign kvs k v)"

definition setProp :: "(string \<times> 'v) list \<Rightarrow> string \<Rightarrow> 'v \<Rightarrow> (string \<times> 'v) list" where
  \<comment> \<open>\<^verbatim>\<open>row[k] = v\<close> for a header \<open>k\<close> and a \<open>v\<close> that is a string or \<^verbatim>\<open>null\<close>\<close>
  "setProp row k v = (if k = ''__proto__'' then row else assign row k v)"

definition getProp :: "obj \<Rightarrow> string \<Rightarrow> jsval" where
  \<comment> \<open>\<^verbatim>\<open>row[k]\<close>: an absent property reads as \<^verbatim>\<open>undefined\<close>\<close>
  "getProp row k = (case map_of row k of None \<Rightarrow> JUndefined | Some v \<Rightarrow> v)"

definition hasKey :: "obj \<Rightarrow> string \<Rightarrow> bool" where
  \<comment> \<open>\<^verbatim>\<open>k in row\<close>\<close>
  "hasKey row k \<longleftrightarrow> k \<in> set (map fst row)"

definition keys :: "('k \<times> 'v) list \<Rightarrow> 'k list" where
  "keys row = map fst row"

definition vals :: "('k \<times> 'v) list \<Rightarrow> 'v list" where
  "vals row = map snd row"

section \<open>The runtime and the libraries\<close>

text \<open>
  What the program calls but does not define is a parameter of the model: the date parser
  of the runtime, the fuzzy search of Fuse.js, the archive reader, the UTF-8 decoder, the
  spreadsheet reader and the PDF text extractor.  A call that throws or rejects is
  \<open>None\<close>.
\<close>

type_synonym buffer = "nat list"

record engine =
  Date_parse :: "string \<Rightarrow> int option"
    \<comment> \<open>the time value, in milliseconds, that \<^verbatim>\<open>new Date(text)\<close> parses; \<open>None\<close> is NaN\<close>
  Fuse_search :: "string list \<Rightarrow> string \<Rightarrow> rat option list"
    \<comment> \<open>\<^verbatim>\<open>new Fuse(synonyms, {threshold: 0.2}).search(header)\<close>: the \<^verbatim>\<open>score\<close>
        property of each result, \<open>None\<close> for a result that has none\<close>
  JSZip_loadAsync :: "buffer \<Rightarrow> (string \<times> buffer option) list option"
    \<comment> \<open>the entries of \<^verbatim>\<open>zip.files\<close> in order, each with what
        \<^verbatim>\<open>file.async('arraybuffer')\<close> yields\<close>
  utf8 :: "buffer \<Rightarrow> string"
  XLSX_rows :: "buffer \<Rightarrow> table option"
    \<comment> \<open>\<^verbatim>\<open>XLSX.utils.sheet_to_json\<close> of the first sheet of \<^verbatim>\<open>XLSX.read(buffer)\<close>\<close>
  pdfParse :: "buffer \<Rightarrow> string option"
    \<comment> \<open>\<^verbatim>\<open>data.text\<close> of \<^verbatim>\<open>pdfParse(buffer)\<close>\<close>

subsection \<open>Dates\<close>

fun timeClip :: "jsnum \<Rightarrow> int option" where
  "timeClip (Num n) = (if \<bar>n\<bar> \<le> 8640000000000000 then Some n else None)"
| "timeClip _ = None"

definition newDate :: "engine \<Rightarrow> jsval \<Rightarrow> int option" where
  \<comment> \<open>\<^verbatim>\<open>new Date(val)\<close>; \<open>None\<close> is the invalid date\<close>
  "newDate eng val =
     (case val of
        JStr s \<Rightarrow> (case Date_parse eng s of None \<Rightarrow> None | Some t \<Rightarrow> timeClip (Num t))
      | _ \<Rightarrow> timeClip (toNumber val))"

definition civil :: "int \<Rightarrow> int \<times> int \<times> int" where
  \<comment> \<open>year, month and day of a day number counted from 1970-01-01 (proleptic Gregorian)\<close>
  "civil days =
     (let z = days + 719468;
          era = z div 146097;
          doe = z mod 146097;
          yoe = (doe - doe div 1460 + doe div 36524 - doe div 146096) div 365;
          doy = doe - (365 * yoe + yoe div 4 - yoe div 100);
          mp = (5 * doy + 2) div 153;
          d = doy - (153 * mp + 2) div 5 + 1;
          m = (if mp < 10 then mp + 3 else mp - 9);
          y = yoe + era * 400 + (if m \<le> 2 then 1 else 0)
      in (y, m, d))"

definition padStart :: "nat \<Rightarrow> string \<Rightarrow> string" where
  "padStart w s = replicate (w - length s) (CHR ''0'') @ s"

definition yearString :: "int \<Rightarrow> string" where
  "yearString y =
     (if 0 \<le> y \<and> y \<le> 9999 then padStart 4 (decimal (nat y))
      else (if y < 0 then ''-'' else ''+'') @ padStart 6 (decimal (nat \<bar>y\<bar>)))"

definition toISOString :: "int \<Rightarrow> string" where
  "toISOString t =
     (let (y, m, d) = civil (t div 86400000);
          ms = t mod 86400000
      in yearString y @ ''-'' @ padStart 2 (decimal (nat m)) @ ''-'' @ padStart 2 (decimal (nat d))
         @ ''T'' @ padStart 2 (decimal (nat (ms div 3600000)))
         @ '':'' @ padStart 2 (decimal (nat (ms div 60000 mod 60)))
         @ '':'' @ padStart 2 (decimal (nat (ms div 1000 mod 60)))
         @ ''.'' @ padStart 3 (decimal (nat (ms mod 1000))) @ ''Z'')"

section \<open>Field normalizers\<close>

definition cleanDate :: "engine \<Rightarrow> jsval \<Rightarrow> jsval" where
  \<comment> \<open>neither \<^verbatim>\<open>new Date\<close> nor \<^verbatim>\<open>toISOString\<close> of a valid date throws, so the
      \<^verbatim>\<open>catch\<close> branch is never taken\<close>
  "cleanDate eng val =
     (case newDate eng val of
        None \<Rightarrow> JNull
      | Some t \<Rightarrow> (case splitOn ''T'' (toISOString t) of [] \<Rightarrow> JUndefined | p # _ \<Rightarrow> JStr p))"

definition titleWord :: "string \<Rightarrow> string" where
  \<comment> \<open>\<^verbatim>\<open>w.charAt(0).toUpperCase() + w.slice(1).toLowerCase()\<close>\<close>
  "titleWord w = toUpperCase (take 1 w) @ toLowerCase (drop 1 w)"

definition cleanName :: "jsval \<Rightarrow> jsval" where
  "cleanName val =
     (case val of
        JStr s \<Rightarrow>
          (let clean = trim (filter (\<lambda>c. isAsciiLetter c \<or> isWhiteSpace c) s)
           in if clean \<noteq> [] then JStr (joinWith '' '' (map titleWord (splitOn '' '' clean)))
              else JNull)
      | _ \<Rightarrow> JNull)"

definition cleanPhone :: "jsval \<Rightarrow> jsval" where
  "cleanPhone val =
     (if val = JNull \<or> val = JUndefined then JNull
      else (let digits = filter isDigit (toString val)
            in if length digits > 5 then JStr digits else JNull))"

definition orElse :: "jsval \<Rightarrow> jsval \<Rightarrow> jsval" where
  \<comment> \<open>\<^verbatim>\<open>a || b\<close>\<close>
  "orElse a b = (if truthy a then a else b)"

definition cleanAddress :: "jsval \<Rightarrow> jsval" where
  \<comment> \<open>the address has no function of its own: \<^verbatim>\<open>row.ADDRESS || null\<close>\<close>
  "cleanAddress val = orElse val JNull"

definition cleanRow :: "engine \<Rightarrow> obj \<Rightarrow> obj" where
  \<comment> \<open>the object literal of the cleaning step\<close>
  "cleanRow eng row =
     [(''DATE'', cleanDate eng (getProp row ''DATE'')),
      (''FULL NAME'', cleanName (getProp row ''FULL NAME'')),
      (''CONTACT'', cleanPhone (getProp row ''CONTACT'')),
      (''ADDRESS'', cleanAddress (getProp row ''ADDRESS'')),
      (''DATA_STATUS'',
         (if list_ex (\<lambda>v. v = JNull) (vals row) then JStr ''Missing Fields'' else JStr ''Valid''))]"

section \<open>Column mapping\<close>

definition TARGET_COLUMNS :: "string list" where
  "TARGET_COLUMNS = [''DATE'', ''FULL NAME'', ''CONTACT'', ''ADDRESS'']"

definition COLUMN_MAPPINGS :: "(string \<times> string list) list" where
  "COLUMN_MAPPINGS =
     [(''DATE'', [''date'', ''dob'', ''time'', ''created_at'', ''joined'', ''day'']),
      (''FULL NAME'',
         [''name'', ''fullname'', ''client'', ''customer'', ''first name'', ''last name'', ''user'']),
      (''CONTACT'', [''phone'', ''mobile'', ''cell'', ''tel'', ''contact number'', ''number'']),
      (''ADDRESS'', [''address'', ''location'', ''residence'', ''city'', ''street''])]"

fun directCheck :: "string \<Rightarrow> (string \<times> string list) list \<Rightarrow> string option" where
  \<comment> \<open>the first loop of \<^verbatim>\<open>aiMapColumn\<close>: returns at the first entry that lists the header\<close>
  "directCheck header [] = None"
| "directCheck header ((target, synonyms) # rest) =
     (if header \<in> set synonyms then Some target else directCheck header rest)"

fun fuzzyLoop ::
  "engine \<Rightarrow> string \<Rightarrow> (string \<times> string list) list \<Rightarrow> string option \<times> rat \<Rightarrow> string option \<times> rat"
where
  \<comment> \<open>the second loop, on \<^verbatim>\<open>(bestMatch, highestScore)\<close>; with no \<^verbatim>\<open>score\<close> on the first
      result the computed score is NaN and both comparisons are false\<close>
  "fuzzyLoop eng header [] st = st"
| "fuzzyLoop eng header ((target, synonyms) # rest) (bestMatch, highestScore) =
     (case Fuse_search eng synonyms header of
        [] \<Rightarrow> fuzzyLoop eng header rest (bestMatch, highestScore)
      | None # _ \<Rightarrow> fuzzyLoop eng header rest (bestMatch, highestScore)
      | Some s # _ \<Rightarrow>
          (let score = (1 - s) * 100
           in if score > 80 \<and> score > highestScore
              then fuzzyLoop eng header rest (Some target, score)
              else fuzzyLoop eng header rest (bestMatch, highestScore)))"

definition aiMapColumn :: "engine \<Rightarrow> string \<Rightarrow> string option" where
  \<comment> \<open>\<open>None\<close> is the \<^verbatim>\<open>null\<close> that the function returns when nothing matches\<close>
  "aiMapColumn eng header0 =
     (let header = trim (toLowerCase header0)
      in case directCheck header COLUMN_MAPPINGS of
           Some target \<Rightarrow> Some target
         | None \<Rightarrow> fst (fuzzyLoop eng header COLUMN_MAPPINGS (None, 0)))"

fun renameLoop :: "engine \<Rightarrow> string list \<Rightarrow> (string \<times> string) list \<Rightarrow> (string \<times> string) list" where
  \<comment> \<open>\<^verbatim>\<open>if (mapped) renamedCols[col] = mapped\<close> for each column of the first row\<close>
  "renameLoop eng [] renamedCols = renamedCols"
| "renameLoop eng (col # cols) renamedCols =
     (case aiMapColumn eng col of
        None \<Rightarrow> renameLoop eng cols renamedCols
      | Some mapped \<Rightarrow>
          (if mapped \<noteq> [] then renameLoop eng cols (setProp renamedCols col mapped)
           else renameLoop eng cols renamedCols))"

definition renamedColsOf :: "engine \<Rightarrow> table \<Rightarrow> (string \<times> string) list" where
  \<comment> \<open>over \<^verbatim>\<open>Object.keys(df[0] || {})\<close>\<close>
  "renamedColsOf eng df = renameLoop eng (keys (case df of [] \<Rightarrow> [] | row # _ \<Rightarrow> row)) []"

fun copyLoop :: "obj \<Rightarrow> (string \<times> string) list \<Rightarrow> obj \<Rightarrow> obj" where
  \<comment> \<open>\<^verbatim>\<open>newRow[newCol] = row[oldCol]\<close> for each entry of \<^verbatim>\<open>renamedCols\<close>\<close>
  "copyLoop row [] newRow = newRow"
| "copyLoop row ((oldCol, newCol) # rest) newRow =
     copyLoop row rest (assign newRow newCol (getProp row oldCol))"

fun fillLoop :: "string list \<Rightarrow> obj \<Rightarrow> obj" where
  \<comment> \<open>\<^verbatim>\<open>if (!(col in newRow)) newRow[col] = null\<close> for each target column\<close>
  "fillLoop [] newRow = newRow"
| "fillLoop (col # cols) newRow =
     fillLoop cols (if \<not> hasKey newRow col then assign newRow col JNull else newRow)"

definition mapRow :: "(string \<times> string) list \<Rightarrow> obj \<Rightarrow> obj" where
  "mapRow renamedCols row = fillLoop TARGET_COLUMNS (copyLoop row renamedCols [])"

definition mapTable :: "engine \<Rightarrow> table \<Rightarrow> table" where
  \<comment> \<open>the block \<^verbatim>\<open>Apply AI Column Mapping\<close> of the archive branch\<close>
  "mapTable eng df = map (mapRow (renamedColsOf eng df)) df"

section \<open>Decoding the files\<close>

definition valueAt :: "string list \<Rightarrow> nat \<Rightarrow> jsval" where
  \<comment> \<open>\<^verbatim>\<open>values[i]\<close>: reading past the end gives \<^verbatim>\<open>undefined\<close>\<close>
  "valueAt values i = (if i < length values then JStr (values ! i) else JUndefined)"

fun headerLoop :: "string list \<Rightarrow> nat \<Rightarrow> string list \<Rightarrow> obj \<Rightarrow> obj" where
  \<comment> \<open>\<^verbatim>\<open>headers.forEach((h, i) => obj[h] = values[i] || null)\<close>\<close>
  "headerLoop [] i values row = row"
| "headerLoop (h # hs) i values row =
     headerLoop hs (Suc i) values (setProp row h (orElse (valueAt values i) JNull))"

definition parseCSV :: "string \<Rightarrow> table" where
  "parseCSV csvString =
     (case splitOn [CHR 0x0A] (trim csvString) of
        [] \<Rightarrow> []
      | line0 # lines \<Rightarrow>
          (let headers = map trim (splitOn '','' line0)
           in map (\<lambda>line. headerLoop headers 0 (map trim (splitOn '','' line)) []) lines))"

definition parseExcel :: "engine \<Rightarrow> buffer \<Rightarrow> table option" where
  "parseExcel eng buf = XLSX_rows eng buf"

definition labelled :: "string \<Rightarrow> string \<Rightarrow> bool \<Rightarrow> string option" where
  \<comment> \<open>\<^verbatim>\<open>line.split(label)[1].split("|")[0].trim()\<close>, without the middle split for the
      address; \<open>None\<close> when a piece is missing and the method call on it throws\<close>
  "labelled label line upToBar =
     (case splitOn label line of
        _ # rest # _ \<Rightarrow>
          (if upToBar then (case splitOn ''|'' rest of [] \<Rightarrow> None | p # _ \<Rightarrow> Some (trim p))
           else Some (trim rest))
      | _ \<Rightarrow> None)"

definition labelStep :: "string \<Rightarrow> string \<Rightarrow> bool \<Rightarrow> string \<Rightarrow> obj option \<Rightarrow> obj option" where
  \<comment> \<open>one \<^verbatim>\<open>if (line.includes(label)) currentRecord[field] = ...\<close>\<close>
  "labelStep label field upToBar line cur =
     (case cur of
        None \<Rightarrow> None
      | Some rec \<Rightarrow>
          (if includesStr line label
           then (case labelled label line upToBar of
                   None \<Rightarrow> None
                 | Some v \<Rightarrow> Some (assign rec field (JStr v)))
           else Some rec))"

fun recordLoop :: "string list \<Rightarrow> table \<Rightarrow> obj \<Rightarrow> table option" where
  \<comment> \<open>the loop over the lines of the PDF text, on \<^verbatim>\<open>(records, currentRecord)\<close>\<close>
  "recordLoop [] records currentRecord = Some records"
| "recordLoop (line # lines) records currentRecord =
     (case labelStep ''Address:'' ''ADDRESS'' False line
             (labelStep ''Phone:'' ''CONTACT'' True line
               (labelStep ''Name:'' ''FULL NAME'' True line
                 (labelStep ''Date:'' ''DATE'' True line (Some currentRecord)))) of
        None \<Rightarrow> None
      | Some rec \<Rightarrow>
          (if length (keys rec) \<ge> 3 then recordLoop lines (records @ [rec]) []
           else recordLoop lines records rec))"

definition extractTextFromPdf :: "engine \<Rightarrow> buffer \<Rightarrow> table option" where
  "extractTextFromPdf eng buf =
     (case pdfParse eng buf of
        None \<Rightarrow> None
      | Some text \<Rightarrow> recordLoop (splitOn [CHR 0x0A] text) [] [])"

section \<open>The upload handler\<close>

datatype 'a attempt = Thrown | Continued | Done 'a

definition fileExtOf :: "string \<Rightarrow> string" where
  \<comment> \<open>\<^verbatim>\<open>filename.split('.').pop().toLowerCase()\<close>\<close>
  "fileExtOf filename = toLowerCase (last (splitOn ''.'' filename))"

definition readTable :: "engine \<Rightarrow> string \<Rightarrow> buffer \<Rightarrow> table attempt" where
  \<comment> \<open>the decoding at the head of the per-file \<^verbatim>\<open>try\<close>: \<open>Thrown\<close> goes to its
      \<^verbatim>\<open>catch\<close>, \<open>Continued\<close> is the \<^verbatim>\<open>continue\<close> of an unknown extension\<close>
  "readTable eng fileExt fileBuffer =
     (if fileExt = ''csv'' then Done (parseCSV (utf8 eng fileBuffer))
      else if fileExt = ''xlsx'' then
        (case parseExcel eng fileBuffer of None \<Rightarrow> Thrown | Some df \<Rightarrow> Done df)
      else if fileExt = ''pdf'' then
        (case extractTextFromPdf eng fileBuffer of None \<Rightarrow> Thrown | Some df \<Rightarrow> Done df)
      else Continued)"

definition skippedName :: "string \<Rightarrow> bool" where
  "skippedName filename \<longleftrightarrow> startsWith filename ''__MACOSX'' \<or> endsWith filename ''/''"

fun zipLoop ::
  "engine \<Rightarrow> (string \<times> buffer option) list \<Rightarrow> table \<times> nat \<Rightarrow> (table \<times> nat) option"
where
  \<comment> \<open>the loop over \<^verbatim>\<open>zip.files\<close>, on \<^verbatim>\<open>(allData, filesProcessed)\<close>; \<open>None\<close> when
      reading an entry rejects, which is outside the per-file \<^verbatim>\<open>try\<close>\<close>
  "zipLoop eng [] st = Some st"
| "zipLoop eng ((filename, file) # rest) (allData, filesProcessed) =
     (if skippedName filename then zipLoop eng rest (allData, filesProcessed)
      else case file of
        None \<Rightarrow> None
      | Some fileBuffer \<Rightarrow>
          (case readTable eng (fileExtOf filename) fileBuffer of
             Done df \<Rightarrow> zipLoop eng rest (allData @ mapTable eng df, Suc filesProcessed)
           | Continued \<Rightarrow> zipLoop eng rest (allData, filesProcessed)
           | Thrown \<Rightarrow> zipLoop eng rest (allData, filesProcessed)))"

definition gather :: "engine \<Rightarrow> (string \<times> buffer) option \<Rightarrow> (table \<times> nat) option" where
  \<comment> \<open>\<^verbatim>\<open>allData\<close> and \<^verbatim>\<open>filesProcessed\<close> as they reach the cleaning step; \<open>None\<close> when
      an exception reaches the outer \<^verbatim>\<open>catch\<close> (no file in the request included)\<close>
  "gather eng reqFile =
     (case reqFile of
        None \<Rightarrow> None
      | Some (originalname, buf) \<Rightarrow>
          (if endsWith originalname ''.zip'' then
             (case JSZip_loadAsync eng buf of
                None \<Rightarrow> None
              | Some files \<Rightarrow> zipLoop eng files ([], 0))
           else if endsWith originalname ''.csv'' then Some (parseCSV (utf8 eng buf), 1)
           else if endsWith originalname ''.xlsx'' then
             (case parseExcel eng buf of None \<Rightarrow> None | Some df \<Rightarrow> Some (df, 1))
           else Some ([], 0)))"

definition identityKey :: "obj \<Rightarrow> string" where
  \<comment> \<open>the template literal that keys the \<^verbatim>\<open>Map\<close>\<close>
  "identityKey row =
     toString (getProp row ''FULL NAME'') @ ''-'' @ toString (getProp row ''CONTACT'') @ ''-''
       @ toString (getProp row ''DATE'')"

fun mapFrom :: "table \<Rightarrow> (string \<times> obj) list \<Rightarrow> (string \<times> obj) list" where
  \<comment> \<open>\<^verbatim>\<open>new Map(pairs)\<close>: the pairs are set one after the other\<close>
  "mapFrom [] m = m"
| "mapFrom (row # rows) m = mapFrom rows (assign m (identityKey row) row)"

definition removeDuplicates :: "table \<Rightarrow> table" where
  "removeDuplicates cleanedData = vals (mapFrom cleanedData [])"

record body =
  filesProcessed :: nat
  recordCount :: nat
  dedupCount :: nat
  data :: table

text \<open>
  \<open>Json b\<close> is the answer \<^verbatim>\<open>{success: true, ...}\<close> of \<^verbatim>\<open>res.json\<close>; \<open>Status500\<close> is
  the answer of the outer \<^verbatim>\<open>catch\<close>, the way an error reaches the caller.
\<close>

datatype response = Status500 | Json body

definition upload :: "engine \<Rightarrow> (string \<times> buffer) option \<Rightarrow> response" where
  "upload eng reqFile =
     (case gather eng reqFile of
        None \<Rightarrow> Status500
      | Some (allData, n) \<Rightarrow>
          (let cleanedData = map (cleanRow eng) allData;
               beforeCount = length cleanedData;
               deduped = removeDuplicates cleanedData
           in Json \<lparr>filesProcessed = n, recordCount = length deduped,
                    dedupCount = beforeCount - length deduped, data = deduped\<rparr>))"

section \<open>Sample inputs\<close>

definition sampleCsv :: string where
  "sampleCsv =
     ''Name,Phone,Date,City'' @ [CHR 0x0A] @
     ''john smith,555-12,2020/1/5,Paris'' @ [CHR 0x0A] @
     ''ann lee,555-123-456,2020/1/5,Rome'' @ [CHR 0x0A] @
     ''Ann Lee,555123456,2020/1/5,Oslo'' @ [CHR 0x0A] @
     ''bo li,555-987-654,,Lima''"

definition sampleFiles :: "(string \<times> buffer option) list" where
  \<comment> \<open>an archive with one table that decodes, a PDF that does not, a directory, a resource
      fork that cannot be read and a file that is no table\<close>
  "sampleFiles =
     [(''__MACOSX/people.csv'', None),
      (''people.csv'', Some (map of_char sampleCsv)),
      (''broken.pdf'', Some [1, 2, 3]),
      (''folder/'', None),
      (''notes.txt'', Some [])]"

definition sampleEngine :: engine where
  \<comment> \<open>a runtime in the UTC zone that parses one date text, opens every archive as
      \<open>sampleFiles\<close>, reads ASCII, and fails on every spreadsheet and PDF\<close>
  "sampleEngine =
     \<lparr>Date_parse = (\<lambda>s. if s = ''2020/1/5'' then Some 1578182400000 else None),
      Fuse_search = (\<lambda>synonyms header. []),
      JSZip_loadAsync = (\<lambda>buf. Some sampleFiles),
      utf8 = map char_of,
      XLSX_rows = (\<lambda>buf. None),
      pdfParse = (\<lambda>buf. None)\<rparr>"

definition damagedFiles :: "(string \<times> buffer option) list" where
  \<comment> \<open>the table that decodes, then an entry whose bytes cannot be read from the archive,
      then the PDF that does not decode\<close>
  "damagedFiles =
     [(''people.csv'', Some (map of_char sampleCsv)),
      (''damaged.csv'', None),
      (''broken.pdf'', Some [1, 2, 3])]"

definition damagedEngine :: engine where
  \<comment> \<open>\<open>sampleEngine\<close>, opening every archive as \<open>damagedFiles\<close>\<close>
  "damagedEngine = sampleEngine\<lparr>JSZip_loadAsync := (\<lambda>buf. Some damagedFiles)\<rparr>"

definition sampleParsed :: table where
  \<comment> \<open>the rows that \<^verbatim>\<open>parseCSV\<close> makes of \<open>sampleCsv\<close>\<close>
  "sampleParsed =
     [[(''Name'', JStr ''john smith''), (''Phone'', JStr ''555-12''),
       (''Date'', JStr ''2020/1/5''), (''City'', JStr ''Paris'')],
      [(''Name'', JStr ''ann lee''), (''Phone'', JStr ''555-123-456''),
       (''Date'', JStr ''2020/1/5''), (''City'', JStr ''Rome'')],
      [(''Name'', JStr ''Ann Lee''), (''Phone'', JStr ''555123456''),
       (''Date'', JStr ''2020/1/5''), (''City'', JStr ''Oslo'')],
      [(''Name'', JStr ''bo li''), (''Phone'', JStr ''555-987-654''),
       (''Date'', JNull), (''City'', JStr ''Lima'')]]"

definition sampleMapped :: table where
  \<comment> \<open>the same rows after the column mapping of the archive branch\<close>
  "sampleMapped =
     [[(''FULL NAME'', JStr ''john smith''), (''CONTACT'', JStr ''555-12''),
       (''DATE'', JStr ''2020/1/5''), (''ADDRESS'', JStr ''Paris'')],
      [(''FULL NAME'', JStr ''ann lee''), (''CONTACT'', JStr ''555-123-456''),
       (''DATE'', JStr ''2020/1/5''), (''ADDRESS'', JStr ''Rome'')],
      [(''FULL NAME'', JStr ''Ann Lee''), (''CONTACT'', JStr ''555123456''),
       (''DATE'', JStr ''2020/1/5''), (''ADDRESS'', JStr ''Oslo'')],
      [(''FULL NAME'', JStr ''bo li''), (''CONTACT'', JStr ''555-987-654''),
       (''DATE'', JNull), (''ADDRESS'', JStr ''Lima'')]]"

definition johnSmith :: obj where
  "johnSmith =
     [(''DATE'', JStr ''2020-01-05''), (''FULL NAME'', JStr ''John Smith''), (''CONTACT'', JNull),
      (''ADDRESS'', JStr ''Paris''), (''DATA_STATUS'', JStr ''Valid'')]"

definition annLeeRome :: obj where
  "annLeeRome =
     [(''DATE'', JStr ''2020-01-05''), (''FULL NAME'', JStr ''Ann Lee''),
      (''CONTACT'', JStr ''555123456''), (''ADDRESS'', JStr ''Rome''),
      (''DATA_STATUS'', JStr ''Valid'')]"

definition annLeeOslo :: obj where
  "annLeeOslo =
     [(''DATE'', JStr ''2020-01-05''), (''FULL NAME'', JStr ''Ann Lee''),
      (''CONTACT'', JStr ''555123456''), (''ADDRESS'', JStr ''Oslo''),
      (''DATA_STATUS'', JStr ''Valid'')]"

definition boLi :: obj where
  "boLi =
     [(''DATE'', JStr ''1970-01-01''), (''FULL NAME'', JStr ''Bo Li''),
      (''CONTACT'', JStr ''555987654''), (''ADDRESS'', JStr ''Lima''),
      (''DATA_STATUS'', JStr ''Missing Fields'')]"

definition allNull :: "string \<Rightarrow> obj" where
  "allNull status =
     [(''DATE'', JNull), (''FULL NAME'', JNull), (''CONTACT'', JNull), (''ADDRESS'', JNull),
      (''DATA_STATUS'', JStr status)]"

section \<open>Notions used to state the results\<close>

fun capitalise :: "bool \<Rightarrow> string \<Rightarrow> string" where
  \<comment> \<open>upper case for the first character and for each character that follows a space, lower
      case for all others\<close>
  "capitalise first [] = []"
| "capitalise first (c # cs) =
     (if first then upperChar c else lowerChar c) # capitalise (c = CHR '' '') cs"

fun adjacentWhiteSpace :: "string \<Rightarrow> bool" where
  \<comment> \<open>two white-space characters in a row\<close>
  "adjacentWhiteSpace (a # b # cs) =
     ((isWhiteSpace a \<and> isWhiteSpace b) \<or> adjacentWhiteSpace (b # cs))"
| "adjacentWhiteSpace _ = False"

fun firstSeen :: "'a list \<Rightarrow> 'a list" where
  \<comment> \<open>the distinct elements, each at the place of its first occurrence\<close>
  "firstSeen [] = []"
| "firstSeen (k # ks) = k # filter (\<lambda>k'. k' \<noteq> k) (firstSeen ks)"

fun keepFirstSeen :: "string list \<Rightarrow> table \<Rightarrow> table" where
  \<comment> \<open>deduplication as the specification words it: the first record seen with a key stays
      where it is, every later record with that key is dropped\<close>
  "keepFirstSeen seen [] = []"
| "keepFirstSeen seen (r # rs) =
     (if identityKey r \<in> set seen then keepFirstSeen seen rs
      else r # keepFirstSeen (identityKey r # seen) rs)"

fun decodedTables :: "engine \<Rightarrow> (string \<times> buffer option) list \<Rightarrow> table list" where
  \<comment> \<open>the tables of an archive that decode, in the order of their entries\<close>
  "decodedTables eng [] = []"
| "decodedTables eng ((filename, file) # rest) =
     (if skippedName filename then decodedTables eng rest
      else case file of
        None \<Rightarrow> decodedTables eng rest
      | Some fileBuffer \<Rightarrow>
          (case readTable eng (fileExtOf filename) fileBuffer of
             Done df \<Rightarrow> df # decodedTables eng rest
           | _ \<Rightarrow> decodedTables eng rest))"

section \<open>Results on the field normalizers\<close>

text \<open>
  C4.  A normalizer should give the same result on \<^verbatim>\<open>null\<close> as on an absent value.
  The name, contact and address normalizers do; the date normalizer does not: the runtime
  converts \<^verbatim>\<open>null\<close> to the number 0, the start of the epoch, and an absent value to NaN,
  so \<^verbatim>\<open>cleanDate(null)\<close> is the text 1970-01-01 and \<^verbatim>\<open>cleanDate(undefined)\<close> is
  \<^verbatim>\<open>null\<close>.
\<close>

theorem cleanDate_null_differs_from_absent:
  "cleanDate eng JNull = JStr ''1970-01-01'' \<and> cleanDate eng JUndefined = JNull"
  by code_simp

lemma other_normalizers_null_as_absent:
  "cleanName JNull = cleanName JUndefined"
  "cleanPhone JNull = cleanPhone JUndefined"
  "cleanAddress JNull = cleanAddress JUndefined"
  by (simp_all add: cleanName_def cleanPhone_def cleanAddress_def orElse_def)

text \<open>
  C7.  For every raw value other than \<^verbatim>\<open>null\<close>, the contact normalizer returns
  \<^verbatim>\<open>null\<close> when the text of the value holds fewer than 6 digits, and otherwise the digits
  of that text, in their order and with nothing else.
\<close>

theorem cleanPhone_digits:
  assumes "val \<noteq> JNull"
  shows "cleanPhone val =
           (if length (filter isDigit (toString val)) < 6 then JNull
            else JStr (filter isDigit (toString val)))"
proof (cases "val = JUndefined")
  case True
  then show ?thesis by (simp add: cleanPhone_def isDigit_def)
next
  case False
  with assms show ?thesis by (simp add: cleanPhone_def Let_def not_less Suc_le_eq)
qed

theorem cleanPhone_digits_witness:
  "JStr ''555-12-34'' \<noteq> JNull \<and> cleanPhone (JStr ''555-12-34'') = JStr ''5551234''
   \<and> JStr ''12-34'' \<noteq> JNull \<and> cleanPhone (JStr ''12-34'') = JNull"
  using cleanPhone_digits [of "JStr ''555-12-34''"] cleanPhone_digits [of "JStr ''12-34''"]
  by (simp add: isDigit_def)

text \<open>
  C5.  As stated (the address of the cleaned record is the raw value whenever that value is
  present, the empty string and the number 0 included) the claim fails: the cleaning step
  writes \<^verbatim>\<open>row.ADDRESS || null\<close>, which turns every falsy value into \<^verbatim>\<open>null\<close>.
\<close>

theorem address_falsy_counterexample:
  "getProp (cleanRow sampleEngine [(''ADDRESS'', JStr '''')]) ''ADDRESS'' = JNull \<and>
   getProp (cleanRow sampleEngine [(''ADDRESS'', JNum (Num 0))]) ''ADDRESS'' = JNull"
  by (simp add: cleanRow_def getProp_def cleanAddress_def orElse_def)

text \<open>
  C5, amended.  The address of the cleaned record is the raw value unchanged when that value
  is truthy; it is \<^verbatim>\<open>null\<close> when the raw value is absent, \<^verbatim>\<open>null\<close>, \<^verbatim>\<open>false\<close>, NaN, 0 or
  the empty string.
\<close>

theorem address_passthrough:
  "getProp (cleanRow eng row) ''ADDRESS'' =
     (if getProp row ''ADDRESS'' \<in> {JUndefined, JNull, JBool False, JNum NaN, JNum (Num 0), JStr []}
      then JNull else getProp row ''ADDRESS'')"
proof -
  have "truthy v \<longleftrightarrow> v \<notin> {JUndefined, JNull, JBool False, JNum NaN, JNum (Num 0), JStr []}" for v
    by (cases v) auto
  then show ?thesis
    by (simp add: cleanRow_def getProp_def cleanAddress_def orElse_def)
qed

theorem address_passthrough_witness:
  "getProp (cleanRow sampleEngine [(''ADDRESS'', JStr ''Paris'')]) ''ADDRESS'' = JStr ''Paris'' \<and>
   getProp (cleanRow sampleEngine [(''ADDRESS'', JBool False)]) ''ADDRESS'' = JNull"
  using address_passthrough [of sampleEngine "[(''ADDRESS'', JStr ''Paris'')]"]
    address_passthrough [of sampleEngine "[(''ADDRESS'', JBool False)]"]
  by (simp add: getProp_def)

subsection \<open>Title case\<close>

lemma splitFrom_nonempty: "splitFrom sep acc s \<noteq> []"
  by (induction sep acc s rule: splitFrom.induct) auto

lemma joinWith_Cons: "ws \<noteq> [] \<Longrightarrow> joinWith sep (w # ws) = w @ sep @ joinWith sep ws"
  by (cases ws) auto

lemma upperChar_space: "upperChar (CHR '' '') = CHR '' ''"
  by (simp add: upperChar_def)

lemma lowerChar_space: "lowerChar (CHR '' '') = CHR '' ''"
  by (simp add: lowerChar_def)

lemma lowerChar_upperChar: "lowerChar (upperChar c) = lowerChar c"
  by (auto simp: lowerChar_def upperChar_def Let_def)

lemma lowerChar_idem: "lowerChar (lowerChar c) = lowerChar c"
  by (auto simp: lowerChar_def Let_def)

lemma isWhiteSpace_upperChar: "isWhiteSpace (upperChar c) = isWhiteSpace c"
  by (auto simp: isWhiteSpace_def upperChar_def Let_def)

lemma isWhiteSpace_lowerChar: "isWhiteSpace (lowerChar c) = isWhiteSpace c"
  by (auto simp: isWhiteSpace_def lowerChar_def Let_def)

lemma capitalise_lower: "CHR '' '' \<notin> set w \<Longrightarrow> capitalise False w = map lowerChar w"
  by (induction w) auto

lemma capitalise_word: "CHR '' '' \<notin> set w \<Longrightarrow> capitalise True w = titleWord w"
  by (cases w) (auto simp: titleWord_def toUpperCase_def toLowerCase_def capitalise_lower)

lemma capitalise_word_space:
  "CHR '' '' \<notin> set w \<Longrightarrow>
   capitalise b (w @ CHR '' '' # r) = capitalise b w @ CHR '' '' # capitalise True r"
  by (induction w arbitrary: b) (auto simp: upperChar_space lowerChar_space)

lemma join_title_split:
  "CHR '' '' \<notin> set acc \<Longrightarrow>
   joinWith '' '' (map titleWord (splitFrom '' '' acc s)) = capitalise True (rev acc @ s)"
proof (induction s arbitrary: acc)
  case Nil
  then show ?case by (simp add: capitalise_word)
next
  case (Cons c cs)
  show ?case
  proof (cases "c = CHR '' ''")
    case True
    have "joinWith '' '' (map titleWord (splitFrom '' '' acc (c # cs)))
          = titleWord (rev acc) @ '' '' @ joinWith '' '' (map titleWord (splitFrom '' '' [] cs))"
      using True by (simp add: joinWith_Cons splitFrom_nonempty)
    also have "\<dots> = capitalise True (rev acc) @ CHR '' '' # capitalise True cs"
      using Cons.IH [of "[]"] Cons.prems by (simp add: capitalise_word)
    also have "\<dots> = capitalise True (rev acc @ c # cs)"
      using True Cons.prems by (simp add: capitalise_word_space)
    finally show ?thesis .
  next
    case False
    then show ?thesis using Cons.IH [of "c # acc"] Cons.prems by simp
  qed
qed

lemma map_lower_capitalise: "map lowerChar (capitalise b s) = map lowerChar s"
  by (induction s arbitrary: b) (simp_all add: lowerChar_upperChar lowerChar_idem)

lemma adjacent_capitalise: "adjacentWhiteSpace (capitalise b s) = adjacentWhiteSpace s"
  by (induction s arbitrary: b rule: adjacentWhiteSpace.induct)
     (simp_all add: isWhiteSpace_upperChar isWhiteSpace_lowerChar)

text \<open>
  C6.  As stated (the name is split on white-space runs and rejoined with single spaces, so
  that the output never contains consecutive white space) the claim fails: the code splits
  with \<^verbatim>\<open>split(' ')\<close>, at each single space, so two spaces in a row give an empty piece
  and come back as two spaces.
\<close>

theorem cleanName_double_space_counterexample:
  "cleanName (JStr ''john  smith'') = JStr ''John  Smith'' \<and> adjacentWhiteSpace ''John  Smith''"
  by code_simp

text \<open>
  C6, amended.  For every string input whose value, after stripping the characters that are
  not ASCII letters or white space and trimming, is non-empty, the name normalizer splits
  that value at each single space character, title-cases each piece and rejoins the pieces
  with single spaces.  The output is that value with its first character and every
  character that follows a space in upper case and all others in lower case: it differs
  from the value in letter case only, and has consecutive white space exactly when the
  value has.
\<close>

theorem cleanName_title_case:
  assumes "clean = trim (filter (\<lambda>c. isAsciiLetter c \<or> isWhiteSpace c) s)"
    and "clean \<noteq> []"
  shows "cleanName (JStr s) = JStr (capitalise True clean)
         \<and> map lowerChar (capitalise True clean) = map lowerChar clean
         \<and> adjacentWhiteSpace (capitalise True clean) = adjacentWhiteSpace clean"
proof -
  have "joinWith '' '' (map titleWord (splitOn '' '' clean)) = capitalise True clean"
    using join_title_split [of "[]" clean] by (simp add: splitOn_def)
  with assms show ?thesis
    by (simp add: cleanName_def Let_def map_lower_capitalise adjacent_capitalise)
qed

theorem cleanName_title_case_witness:
  "cleanName (JStr '' ann-marie  o'neil 3rd '') = JStr ''Annmarie  Oneil Rd''"
proof -
  have c: "trim (filter (\<lambda>c. isAsciiLetter c \<or> isWhiteSpace c) '' ann-marie  o'neil 3rd '')
           = ''annmarie  oneil rd''"
    by code_simp
  have n: "''annmarie  oneil rd'' \<noteq> []" by simp
  have "capitalise True ''annmarie  oneil rd'' = ''Annmarie  Oneil Rd''" by code_simp
  with cleanName_title_case [OF c [symmetric] n] show ?thesis by simp
qed

section \<open>Results on the column mapping\<close>

lemma directCheck_target: "directCheck header ms = Some t \<Longrightarrow> t \<in> fst ` set ms"
  by (induction ms) (auto split: if_splits)

lemma fuzzyLoop_target:
  "fuzzyLoop eng header ms st = (Some t, sc) \<Longrightarrow> t \<in> fst ` set ms \<or> fst st = Some t"
  by (induction eng header ms st rule: fuzzyLoop.induct)
     (auto split: list.splits option.splits if_splits simp: Let_def)

lemma aiMapColumn_target:
  assumes "aiMapColumn eng header = Some t"
  shows "t \<in> set TARGET_COLUMNS"
proof -
  let ?h = "trim (toLowerCase header)"
  have tg: "fst ` set COLUMN_MAPPINGS = set TARGET_COLUMNS"
    by (simp add: COLUMN_MAPPINGS_def TARGET_COLUMNS_def)
  show ?thesis
  proof (cases "directCheck ?h COLUMN_MAPPINGS")
    case (Some u)
    with assms have "u = t" by (simp add: aiMapColumn_def)
    with Some directCheck_target tg show ?thesis by blast
  next
    case None
    with assms have "fst (fuzzyLoop eng ?h COLUMN_MAPPINGS (None, 0)) = Some t"
      by (simp add: aiMapColumn_def)
    then obtain sc where "fuzzyLoop eng ?h COLUMN_MAPPINGS (None, 0) = (Some t, sc)"
      by (cases "fuzzyLoop eng ?h COLUMN_MAPPINGS (None, 0)") auto
    from fuzzyLoop_target [OF this] tg show ?thesis by auto
  qed
qed

text \<open>
  C8.  For every header that, once in lower case and trimmed, equals a synonym configured
  for a target field, the column mapper returns that target field, whatever the fuzzy
  search would say: the direct check returns first.
\<close>

theorem aiMapColumn_exact:
  assumes "(target, synonyms) \<in> set COLUMN_MAPPINGS"
    and "trim (toLowerCase header) \<in> set synonyms"
  shows "aiMapColumn eng header = Some target"
  using assms by (auto simp: aiMapColumn_def COLUMN_MAPPINGS_def)

theorem aiMapColumn_exact_witness:
  "aiMapColumn sampleEngine ''  Contact NUMBER '' = Some ''CONTACT''"
proof -
  have m: "(''CONTACT'', [''phone'', ''mobile'', ''cell'', ''tel'', ''contact number'', ''number''])
             \<in> set COLUMN_MAPPINGS"
    by (simp add: COLUMN_MAPPINGS_def)
  have h: "trim (toLowerCase ''  Contact NUMBER '')
             \<in> set [''phone'', ''mobile'', ''cell'', ''tel'', ''contact number'', ''number'']"
    by code_simp
  from aiMapColumn_exact [OF m h] show ?thesis .
qed

section \<open>Results on the removal of duplicates\<close>

lemma firstSeen_snoc:
  "firstSeen (ks @ [k]) = (if k \<in> set ks then firstSeen ks else firstSeen ks @ [k])"
  by (induction ks) auto

lemma set_firstSeen: "set (firstSeen ks) = set ks"
  by (induction ks) auto

lemma distinct_firstSeen: "distinct (firstSeen ks)"
  by (induction ks) (auto simp: set_firstSeen)

lemma assign_tabulated:
  "distinct ks \<Longrightarrow>
   assign (map (\<lambda>k. (k, g k)) ks) k v =
     (if k \<in> set ks then map (\<lambda>k'. (k', if k' = k then v else g k')) ks
      else map (\<lambda>k. (k, g k)) ks @ [(k, v)])"
  by (induction ks) auto

lemma mapFrom_snoc: "mapFrom (rs @ [r]) m = assign (mapFrom rs m) (identityKey r) r"
  by (induction rs arbitrary: m) auto

lemma mapFrom_tabulated:
  "mapFrom rs [] =
     map (\<lambda>k. (k, last (filter (\<lambda>r. identityKey r = k) rs))) (firstSeen (map identityKey rs))"
proof (induction rs rule: rev_induct)
  case Nil
  show ?case by simp
next
  case (snoc r rs)
  show ?case
    by (auto simp add: mapFrom_snoc snoc.IH assign_tabulated distinct_firstSeen set_firstSeen
        firstSeen_snoc)
qed

lemma set_assign: "set (assign m k v) \<subseteq> insert (k, v) (set m)"
  by (induction m) (auto split: if_splits)

lemma set_assign_vals: "set (vals (assign m k v)) \<subseteq> insert v (set (vals m))"
  using set_assign [of m k v] by (fastforce simp: vals_def)

lemma set_mapFrom_vals: "set (vals (mapFrom rs m)) \<subseteq> set rs \<union> set (vals m)"
proof (induction rs arbitrary: m)
  case Nil
  show ?case by simp
next
  case (Cons r rs)
  have "set (vals (mapFrom (r # rs) m)) \<subseteq> set rs \<union> set (vals (assign m (identityKey r) r))"
    using Cons.IH by simp
  also have "\<dots> \<subseteq> set rs \<union> insert r (set (vals m))"
    using set_assign_vals [of m "identityKey r" r] by blast
  finally show ?case by auto
qed

lemma set_removeDuplicates: "set (removeDuplicates rs) \<subseteq> set rs"
  using set_mapFrom_vals [of rs "[]"] by (simp add: removeDuplicates_def vals_def)

text \<open>
  C2.  As stated (for each identity key the first-seen record is kept) the claim fails: the
  records go into a \<^verbatim>\<open>Map\<close> one after the other, so a later record with a key that is
  already there replaces the stored record and takes its place.  Two records with the same
  name, contact and date and different addresses leave the second one.
\<close>

theorem removeDuplicates_first_seen_counterexample:
  "removeDuplicates [annLeeRome, annLeeOslo] = [annLeeOslo]
   \<and> keepFirstSeen [] [annLeeRome, annLeeOslo] = [annLeeRome]
   \<and> annLeeRome \<noteq> annLeeOslo"
  by code_simp

text \<open>
  C2, amended.  For every input sequence of classified records, deduplication keeps one
  record for each identity key, at the relative position of the first record seen with that
  key; the record kept is the last one seen with that key, and every other record with the
  key is dropped.
\<close>

theorem removeDuplicates_last_seen:
  "removeDuplicates rs =
     map (\<lambda>k. last (filter (\<lambda>r. identityKey r = k) rs)) (firstSeen (map identityKey rs))"
  by (simp add: removeDuplicates_def mapFrom_tabulated vals_def comp_def)

theorem removeDuplicates_last_seen_witness:
  "removeDuplicates
     [[(''FULL NAME'', JStr ''Ann Lee''), (''ADDRESS'', JStr ''Rome'')],
      [(''FULL NAME'', JStr ''Bo Li''), (''ADDRESS'', JStr ''Lima'')],
      [(''FULL NAME'', JStr ''Ann Lee''), (''ADDRESS'', JStr ''Oslo'')]]
   = [[(''FULL NAME'', JStr ''Ann Lee''), (''ADDRESS'', JStr ''Oslo'')],
      [(''FULL NAME'', JStr ''Bo Li''), (''ADDRESS'', JStr ''Lima'')]]"
proof -
  let ?rs = "[[(''FULL NAME'', JStr ''Ann Lee''), (''ADDRESS'', JStr ''Rome'')],
      [(''FULL NAME'', JStr ''Bo Li''), (''ADDRESS'', JStr ''Lima'')],
      [(''FULL NAME'', JStr ''Ann Lee''), (''ADDRESS'', JStr ''Oslo'')]]"
  have "map (\<lambda>k. last (filter (\<lambda>r. identityKey r = k) ?rs)) (firstSeen (map identityKey ?rs))
        = [[(''FULL NAME'', JStr ''Ann Lee''), (''ADDRESS'', JStr ''Oslo'')],
           [(''FULL NAME'', JStr ''Bo Li''), (''ADDRESS'', JStr ''Lima'')]]"
    by code_simp
  with removeDuplicates_last_seen [of ?rs] show ?thesis by simp
qed

section \<open>Results on the upload handler\<close>

subsection \<open>The sample runs\<close>

lemma sample_parse: "parseCSV (utf8 sampleEngine (map of_char sampleCsv)) = sampleParsed"
  by code_simp

lemma sample_map: "mapTable sampleEngine sampleParsed = sampleMapped"
  by code_simp

lemma sample_clean:
  "map (cleanRow sampleEngine) sampleMapped = [johnSmith, annLeeRome, annLeeOslo, boLi]"
  by code_simp

lemma sample_dedup:
  "removeDuplicates [johnSmith, annLeeRome, annLeeOslo, boLi] = [johnSmith, annLeeOslo, boLi]"
  by code_simp

lemma sample_clean_raw:
  "map (cleanRow sampleEngine) sampleParsed =
     [allNull ''Valid'', allNull ''Valid'', allNull ''Valid'', allNull ''Missing Fields'']"
  by code_simp

lemma sample_dedup_raw:
  "removeDuplicates
     [allNull ''Valid'', allNull ''Valid'', allNull ''Valid'', allNull ''Missing Fields'']
   = [allNull ''Missing Fields'']"
  by code_simp

lemma sample_decoded: "decodedTables sampleEngine sampleFiles = [sampleParsed]"
  by code_simp

lemma sample_readable:
  "\<forall>(filename, fl) \<in> set sampleFiles. \<not> skippedName filename \<longrightarrow> fl \<noteq> None"
  by code_simp

lemma sample_zip_name: "endsWith ''batch.zip'' ''.zip''"
  by code_simp

lemma sample_csv_name: "\<not> endsWith ''people.csv'' ''.zip'' \<and> endsWith ''people.csv'' ''.csv''"
  by code_simp

lemma sample_archive: "JSZip_loadAsync sampleEngine buf = Some sampleFiles"
  by (simp add: sampleEngine_def)

lemma sample_lengths: "length sampleParsed = 4" "length sampleMapped = 4"
  by (simp_all add: sampleParsed_def sampleMapped_def)

subsection \<open>The archive loop\<close>

lemma zipLoop_readable:
  assumes "\<forall>(filename, fl) \<in> set files. \<not> skippedName filename \<longrightarrow> fl \<noteq> None"
  shows "zipLoop eng files (allData, n) =
           Some (allData @ concat (map (mapTable eng) (decodedTables eng files)),
                 n + length (decodedTables eng files))"
  using assms
proof (induction files arbitrary: allData n)
  case Nil
  show ?case by simp
next
  case (Cons e files)
  obtain filename fl where e: "e = (filename, fl)" by (cases e)
  from Cons.prems
  have rest: "\<forall>(filename, fl) \<in> set files. \<not> skippedName filename \<longrightarrow> fl \<noteq> None"
    by simp
  note IH = Cons.IH [OF rest]
  show ?case
  proof (cases "skippedName filename")
    case True
    with e IH show ?thesis by simp
  next
    case False
    with Cons.prems e obtain fileBuffer where f: "fl = Some fileBuffer" by auto
    show ?thesis
      using False e f IH by (cases "readTable eng (fileExtOf filename) fileBuffer") simp_all
  qed
qed

lemma sample_gather_zip: "gather sampleEngine (Some (''batch.zip'', [])) = Some (sampleMapped, 1)"
  using zipLoop_readable [OF sample_readable, of sampleEngine "[]" 0]
  by (simp add: gather_def sample_zip_name sample_archive sample_decoded sample_map)

lemma sample_upload_zip:
  "upload sampleEngine (Some (''batch.zip'', [])) =
     Json \<lparr>filesProcessed = 1, recordCount = 3, dedupCount = 1,
            data = [johnSmith, annLeeOslo, boLi]\<rparr>"
  by (simp add: upload_def sample_gather_zip sample_clean sample_dedup sample_lengths)

lemma sample_gather_csv:
  "gather sampleEngine (Some (''people.csv'', map of_char sampleCsv)) = Some (sampleParsed, 1)"
  by (simp add: gather_def sample_csv_name sample_parse)

lemma sample_upload_csv:
  "upload sampleEngine (Some (''people.csv'', map of_char sampleCsv)) =
     Json \<lparr>filesProcessed = 1, recordCount = 1, dedupCount = 3,
            data = [allNull ''Missing Fields'']\<rparr>"
  by (simp add: upload_def sample_gather_csv sample_clean_raw sample_dedup_raw sample_lengths)

text \<open>
  When every entry of the archive can be read, a table whose decoding fails adds no record
  and does not count; the loop goes on with the entries that follow, the handler answers
  with its normal body, and \<^verbatim>\<open>filesProcessed\<close> is the number of tables that decoded.
\<close>

lemma readable_archive_failures_skipped:
  assumes "endsWith name ''.zip''"
    and "JSZip_loadAsync eng buf = Some files"
    and "\<forall>(filename, fl) \<in> set files. \<not> skippedName filename \<longrightarrow> fl \<noteq> None"
  shows "upload eng (Some (name, buf)) =
           (let cleanedData =
                  map (cleanRow eng) (concat (map (mapTable eng) (decodedTables eng files)));
                deduped = removeDuplicates cleanedData
            in Json \<lparr>filesProcessed = length (decodedTables eng files),
                     recordCount = length deduped,
                     dedupCount = length cleanedData - length deduped,
                     data = deduped\<rparr>)"
  using assms(1,2) zipLoop_readable [OF assms(3), of eng "[]" 0]
  by (simp add: upload_def gather_def Let_def)

text \<open>
  Reading the bytes of an entry comes before the per-file \<^verbatim>\<open>try\<close>.  When it rejects for
  one entry that is not skipped by its name, the loop ends there, whatever the other entries
  are, and the handler answers with the error status.
\<close>

lemma zipLoop_unreadable:
  assumes "(filename, None) \<in> set files" and "\<not> skippedName filename"
  shows "zipLoop eng files (allData, n) = None"
  using assms
proof (induction files arbitrary: allData n)
  case Nil
  then show ?case by simp
next
  case (Cons e files)
  obtain name fl where e: "e = (name, fl)" by (cases e)
  show ?case
  proof (cases "e = (filename, None)")
    case True
    with Cons.prems(2) show ?thesis by simp
  next
    case False
    with Cons.prems have "(filename, None) \<in> set files" by simp
    from Cons.IH [OF this Cons.prems(2)] have IH: "zipLoop eng files st = None" for st
      by (cases st) simp
    show ?thesis
    proof (cases fl)
      case None
      with e IH show ?thesis by simp
    next
      case (Some fileBuffer)
      with e IH show ?thesis
        by (cases "readTable eng (fileExtOf name) fileBuffer") simp_all
    qed
  qed
qed

lemma unreadable_archive_aborts:
  assumes "endsWith name ''.zip''"
    and "JSZip_loadAsync eng buf = Some files"
    and "(filename, None) \<in> set files" and "\<not> skippedName filename"
  shows "upload eng (Some (name, buf)) = Status500"
  using assms(1,2) zipLoop_unreadable [OF assms(3,4), of eng "[]" 0]
  by (simp add: upload_def gather_def)

lemma damaged_entry: "(''damaged.csv'', None) \<in> set damagedFiles"
  by (simp add: damagedFiles_def)

lemma damaged_name: "\<not> skippedName ''damaged.csv''"
  by code_simp

lemma damaged_archive: "JSZip_loadAsync damagedEngine buf = Some damagedFiles"
  by (simp add: damagedEngine_def)

text \<open>
  C9.  In every archive with tables that decode and tables that do not, each table that
  fails should be skipped, the others processed, and no error should reach the caller.  The
  per-file \<^verbatim>\<open>try\<close> does this for a failure of \<^verbatim>\<open>parseCSV\<close>, \<^verbatim>\<open>parseExcel\<close> or
  \<^verbatim>\<open>extractTextFromPdf\<close> (\<open>readable_archive_failures_skipped\<close>), but the bytes of the
  entry are read one line above it.  An archive holding the sample table, an entry that
  cannot be read and a PDF that does not decode is answered with the error status, and the
  table that decodes is lost; without the unreadable entry the same archive is answered
  with one file processed.
\<close>

theorem unreadable_entry_aborts_batch:
  "upload damagedEngine (Some (''batch.zip'', [])) = Status500
   \<and> upload sampleEngine (Some (''batch.zip'', [])) =
       Json \<lparr>filesProcessed = 1, recordCount = 3, dedupCount = 1,
              data = [johnSmith, annLeeOslo, boLi]\<rparr>"
  using unreadable_archive_aborts [OF sample_zip_name damaged_archive damaged_entry damaged_name]
    sample_upload_zip
  by simp

subsection \<open>The records of the answer\<close>

lemma upload_Json:
  assumes "upload eng reqFile = Json b"
  obtains allData n where "gather eng reqFile = Some (allData, n)"
    and "data b = removeDuplicates (map (cleanRow eng) allData)"
    and "filesProcessed b = n"
  using assms by (auto simp: upload_def Let_def split: option.splits)

lemma output_from_cleanRow:
  assumes "gather eng reqFile = Some (allData, n)"
    and "upload eng reqFile = Json b" and "r \<in> set (data b)"
  shows "\<exists>row \<in> set allData. r = cleanRow eng row"
proof -
  from assms(1,2) have "data b = removeDuplicates (map (cleanRow eng) allData)"
    by (auto simp: upload_def Let_def)
  with assms(3) set_removeDuplicates [of "map (cleanRow eng) allData"] show ?thesis by auto
qed

text \<open>
  C1.  As stated (the status is Missing Fields exactly when one of the four normalized
  values is \<^verbatim>\<open>null\<close>, and is computed after normalization) the claim fails: the status is
  computed from the values of the row as it enters the cleaning step.  In the sample archive
  the phone text 555-12 is not \<^verbatim>\<open>null\<close>, its normalized value is, and the record is Valid.
\<close>

theorem status_valid_with_null_contact_counterexample:
  "upload sampleEngine (Some (''batch.zip'', [])) =
     Json \<lparr>filesProcessed = 1, recordCount = 3, dedupCount = 1,
            data = [johnSmith, annLeeOslo, boLi]\<rparr>
   \<and> getProp johnSmith ''CONTACT'' = JNull
   \<and> getProp johnSmith ''DATA_STATUS'' = JStr ''Valid''"
  by (simp add: sample_upload_zip) (simp add: johnSmith_def getProp_def)

text \<open>
  C1, amended.  For every record in the pipeline output, the status tag is Missing Fields
  if and only if at least one property value of the row it was cleaned from, as that row
  enters the cleaning step, is \<^verbatim>\<open>null\<close>; otherwise it is Valid.  The status is computed
  from these values before normalization, not from the normalized ones.
\<close>

theorem status_from_raw_row:
  assumes "gather eng reqFile = Some (allData, n)"
    and "upload eng reqFile = Json b" and "r \<in> set (data b)"
  shows "\<exists>row \<in> set allData. r = cleanRow eng row \<and>
           getProp r ''DATA_STATUS'' =
             (if JNull \<in> set (vals row) then JStr ''Missing Fields'' else JStr ''Valid'')"
proof -
  from output_from_cleanRow [OF assms] obtain row
    where row: "row \<in> set allData" "r = cleanRow eng row" by blast
  have "getProp (cleanRow eng row) ''DATA_STATUS'' =
          (if JNull \<in> set (vals row) then JStr ''Missing Fields'' else JStr ''Valid'')"
    by (auto simp: cleanRow_def getProp_def list_ex_iff)
  with row show ?thesis by blast
qed

theorem status_from_raw_row_witness:
  "gather sampleEngine (Some (''batch.zip'', [])) = Some (sampleMapped, 1)
   \<and> upload sampleEngine (Some (''batch.zip'', [])) =
       Json \<lparr>filesProcessed = 1, recordCount = 3, dedupCount = 1,
              data = [johnSmith, annLeeOslo, boLi]\<rparr>
   \<and> boLi \<in> set (data \<lparr>filesProcessed = 1, recordCount = 3, dedupCount = 1,
                          data = [johnSmith, annLeeOslo, boLi]\<rparr>)
   \<and> (\<exists>row \<in> set sampleMapped. boLi = cleanRow sampleEngine row \<and>
         getProp boLi ''DATA_STATUS'' =
           (if JNull \<in> set (vals row) then JStr ''Missing Fields'' else JStr ''Valid''))"
proof -
  have m: "boLi \<in> set (data \<lparr>filesProcessed = 1, recordCount = 3, dedupCount = 1,
                              data = [johnSmith, annLeeOslo, boLi]\<rparr>)"
    by simp
  from status_from_raw_row [OF sample_gather_zip sample_upload_zip m]
  show ?thesis using sample_gather_zip sample_upload_zip m by blast
qed

text \<open>
  C10.  Whatever the rows that reach the cleaning step look like, every record of the answer
  has exactly the five keys DATE, FULL NAME, CONTACT, ADDRESS and DATA_STATUS, in this
  order, and its DATA_STATUS is one of the two status strings.
\<close>

theorem output_shape:
  assumes "upload eng reqFile = Json b" and "r \<in> set (data b)"
  shows "keys r = [''DATE'', ''FULL NAME'', ''CONTACT'', ''ADDRESS'', ''DATA_STATUS''] \<and>
         (getProp r ''DATA_STATUS'' = JStr ''Missing Fields'' \<or>
          getProp r ''DATA_STATUS'' = JStr ''Valid'')"
proof -
  from assms(1) obtain allData n where g: "gather eng reqFile = Some (allData, n)"
    by (rule upload_Json)
  from output_from_cleanRow [OF g assms] obtain row where "r = cleanRow eng row" by blast
  then show ?thesis by (simp add: cleanRow_def keys_def getProp_def)
qed

theorem output_shape_witness:
  "upload sampleEngine (Some (''people.csv'', map of_char sampleCsv)) =
     Json \<lparr>filesProcessed = 1, recordCount = 1, dedupCount = 3,
            data = [allNull ''Missing Fields'']\<rparr>
   \<and> allNull ''Missing Fields''
       \<in> set (data \<lparr>filesProcessed = 1, recordCount = 1, dedupCount = 3,
                      data = [allNull ''Missing Fields'']\<rparr>)
   \<and> keys (allNull ''Missing Fields'')
       = [''DATE'', ''FULL NAME'', ''CONTACT'', ''ADDRESS'', ''DATA_STATUS'']
   \<and> (getProp (allNull ''Missing Fields'') ''DATA_STATUS'' = JStr ''Missing Fields'' \<or>
      getProp (allNull ''Missing Fields'') ''DATA_STATUS'' = JStr ''Valid'')"
proof -
  have m: "allNull ''Missing Fields''
             \<in> set (data \<lparr>filesProcessed = 1, recordCount = 1, dedupCount = 3,
                            data = [allNull ''Missing Fields'']\<rparr>)"
    by simp
  from output_shape [OF sample_upload_csv m]
  show ?thesis using sample_upload_csv m by blast
qed

subsection \<open>The rows that reach the cleaning step\<close>

lemma keys_simps [simp]: "keys [] = []" "keys ((k, v) # m) = k # keys m"
  by (simp_all add: keys_def)

lemma hasKey_keys: "hasKey row k \<longleftrightarrow> k \<in> set (keys row)"
  by (simp add: hasKey_def keys_def)

lemma keys_assign: "keys (assign m k v) = (if k \<in> set (keys m) then keys m else keys m @ [k])"
  by (induction m) auto

lemma getProp_assign: "getProp (assign m k v) k' = (if k' = k then v else getProp m k')"
  by (induction m) (auto simp: getProp_def)

lemma set_setProp: "set (setProp m k v) \<subseteq> insert (k, v) (set m)"
  using set_assign [of m k v] by (auto simp: setProp_def)

lemma renameLoop_targets:
  "snd ` set renamedCols \<subseteq> set TARGET_COLUMNS \<Longrightarrow>
   snd ` set (renameLoop eng cols renamedCols) \<subseteq> set TARGET_COLUMNS"
proof (induction cols arbitrary: renamedCols)
  case Nil
  then show ?case by simp
next
  case (Cons col cols)
  show ?case
  proof (cases "aiMapColumn eng col")
    case None
    with Cons show ?thesis by simp
  next
    case (Some mapped)
    then have "mapped \<in> set TARGET_COLUMNS" by (rule aiMapColumn_target)
    with Cons.prems set_setProp [of renamedCols col mapped]
    have "snd ` set (setProp renamedCols col mapped) \<subseteq> set TARGET_COLUMNS" by fastforce
    with Cons Some show ?thesis by simp
  qed
qed

lemma copyLoop_keys:
  "set (keys (copyLoop row renamedCols newRow)) = set (keys newRow) \<union> snd ` set renamedCols"
  by (induction row renamedCols newRow rule: copyLoop.induct) (auto simp: keys_assign)

lemma copyLoop_distinct:
  "distinct (keys newRow) \<Longrightarrow> distinct (keys (copyLoop row renamedCols newRow))"
  by (induction row renamedCols newRow rule: copyLoop.induct) (auto simp: keys_assign)

lemma fillLoop_keys: "set (keys (fillLoop cols newRow)) = set (keys newRow) \<union> set cols"
  by (induction cols newRow rule: fillLoop.induct) (auto simp: keys_assign hasKey_keys)

lemma fillLoop_distinct: "distinct (keys newRow) \<Longrightarrow> distinct (keys (fillLoop cols newRow))"
  by (induction cols newRow rule: fillLoop.induct) (auto simp: keys_assign)

lemma fillLoop_getProp:
  "getProp (fillLoop cols newRow) t =
     (if t \<in> set cols \<and> \<not> hasKey newRow t then JNull else getProp newRow t)"
  by (induction cols newRow rule: fillLoop.induct)
     (auto simp: getProp_assign hasKey_keys keys_assign)

lemma mapTable_target_keys:
  assumes "row \<in> set (mapTable eng df)"
  shows "set (keys row) = set TARGET_COLUMNS \<and> distinct (keys row)"
proof -
  let ?rc = "renamedColsOf eng df"
  have rc: "snd ` set ?rc \<subseteq> set TARGET_COLUMNS"
    unfolding renamedColsOf_def by (rule renameLoop_targets) simp
  from assms obtain raw where "row = mapRow ?rc raw" by (auto simp: mapTable_def)
  with rc show ?thesis
    by (auto simp: mapRow_def fillLoop_keys copyLoop_keys fillLoop_distinct copyLoop_distinct)
qed

lemma mapRow_unmatched_null:
  assumes "t \<in> set TARGET_COLUMNS" and "t \<notin> snd ` set renamedCols"
  shows "getProp (mapRow renamedCols raw) t = JNull"
  using assms copyLoop_keys [of raw renamedCols "[]"]
  by (simp add: mapRow_def fillLoop_getProp hasKey_keys)

text \<open>
  C3.  Every processed table should have its headers assigned by the column mapper and its
  rows reshaped to the four target keys before normalization.  The archive branch does so
  (\<open>mapTable_target_keys\<close>, \<open>mapRow_unmatched_null\<close>); the branches for a single CSV or
  spreadsheet file do not: they hand the parsed rows to the cleaning step as they are.  The
  sample CSV uploaded by itself keeps the keys Name, Phone, Date and City, the cleaning step
  finds none of the target keys, and its four rows end as one record of \<^verbatim>\<open>null\<close>s.
\<close>

theorem single_file_rows_keep_raw_headers:
  "gather sampleEngine (Some (''people.csv'', map of_char sampleCsv)) = Some (sampleParsed, 1)
   \<and> map keys sampleParsed = replicate 4 [''Name'', ''Phone'', ''Date'', ''City'']
   \<and> upload sampleEngine (Some (''people.csv'', map of_char sampleCsv)) =
       Json \<lparr>filesProcessed = 1, recordCount = 1, dedupCount = 3,
              data = [allNull ''Missing Fields'']\<rparr>"
proof -
  have "map keys sampleParsed = replicate 4 [''Name'', ''Phone'', ''Date'', ''City'']"
    by code_simp
  with sample_gather_csv sample_upload_csv show ?thesis by blast
qed

end
